theory Spec2Isabelle
  imports Complex_Main "HOL-Library.Sublist"
begin

section \<open>Shared data: chunks, configuration, errors\<close>

text \<open>
  An exception value of the JavaScript source (the argument of a \<^verbatim>\<open>catch\<close>, the reason of
  a rejected promise) is kept as its message.
\<close>

type_synonym js_error = string

text \<open>
  The chunk object built by \<^verbatim>\<open>processAudioChunk\<close> (useAudioRecording.js) and by
  \<^verbatim>\<open>simulateIncomingAudioChunks\<close> (AudioStreamingService.js):
  \<^verbatim>\<open>{ data, index, timestamp, duration, format }\<close>.
  Numbers are taken as exact integers (counters and millisecond stamps).
\<close>

record audioChunk =
  data :: string
  index :: int
  timestamp :: int
  duration :: int
  format :: string

text \<open>\<^verbatim>\<open>AUDIO_CONFIG.chunking\<close> and \<^verbatim>\<open>AUDIO_CONFIG.playback\<close> (utils/audioConfig).\<close>

definition chunkDurationMs :: int where
  "chunkDurationMs = 500"

definition maxChunksInMemory :: nat where
  "maxChunksInMemory = 20"

definition overlapMs :: int where
  "overlapMs = 50"

definition bufferSize :: nat where
  "bufferSize = 5"

text \<open>
  A JavaScript number where the source compares it or stores it as a volume: a finite
  value (taken as a real), an infinity, or \<^verbatim>\<open>NaN\<close>. The operator \<^verbatim>\<open><\<close> is false
  whenever an operand is \<^verbatim>\<open>NaN\<close>; \<^verbatim>\<open>a > b\<close> is \<^verbatim>\<open>b < a\<close>.
\<close>

datatype number = Num real | Infinity | NegInfinity | NaN

fun lessThan :: "number \<Rightarrow> number \<Rightarrow> bool" where
  "lessThan NaN y = False"
| "lessThan x NaN = False"
| "lessThan (Num a) (Num b) = (a < b)"
| "lessThan NegInfinity NegInfinity = False"
| "lessThan NegInfinity y = True"
| "lessThan x NegInfinity = False"
| "lessThan Infinity y = False"
| "lessThan x Infinity = True"

text \<open>
  A value that is a string, \<^verbatim>\<open>null\<close> or \<^verbatim>\<open>undefined\<close>, used as a condition: only a
  non-empty string passes.
\<close>

definition truthy :: "string option \<Rightarrow> bool" where
  "truthy v = (case v of None \<Rightarrow> False | Some u \<Rightarrow> u \<noteq> [])"

text \<open>\<^verbatim>\<open>AUDIO_STATES\<close>.\<close>

datatype audio_state =
  IDLE | RECORDING | PLAYING | CONNECTING | CONNECTED | DISCONNECTED | ERROR


section \<open>The transport: AudioStreamingService.js\<close>

text \<open>
  A callback is a function object; the listener arrays hold references to such objects
  and \<^verbatim>\<open>emit\<close> calls through them. A reference is a number, and the behaviour behind
  the references is a table \<open>funs\<close> from references to handlers. A handler receives the
  payload and acts on the rest of the program (a state of type \<open>'w\<close>); it either returns
  or throws, and what it did before throwing stays done.

  The state \<open>'w\<close> is apart from the service object: a handler that subscribes or
  unsubscribes while \<^verbatim>\<open>emit\<close> is iterating is outside this model.
\<close>

type_synonym ref = nat

datatype 'w completion = Normal 'w | Throw js_error 'w

type_synonym 'w handler = "audioChunk \<Rightarrow> 'w \<Rightarrow> 'w completion"

text \<open>
  A timer installed with \<^verbatim>\<open>setInterval(callback, ms)\<close> by the simulation: its period
  \<^verbatim>\<open>ms\<close>, and the variable \<^verbatim>\<open>chunkIndex\<close> that its callback closes over
  (\<open>simChunkIndex\<close>).
\<close>

record timer =
  intervalMs :: int
  simChunkIndex :: int

text \<open>
  The service object. The field \<open>simulationInterval\<close> is the timer handle of the
  simulation or \<^verbatim>\<open>null\<close>.
\<close>

record service =
  listeners :: "string \<rightharpoonup> ref list"
  connectionState :: audio_state
  chunkBuffer :: "audioChunk list"
  simulationInterval :: "timer option"

definition constructor :: service where
  "constructor =
     \<lparr> listeners = Map.empty, connectionState = CONNECTED, chunkBuffer = [],
       simulationInterval = None \<rparr>"

text \<open>\<^verbatim>\<open>on(event, callback)\<close>: create the array on first use, then push.\<close>

definition on :: "string \<Rightarrow> ref \<Rightarrow> service \<Rightarrow> service" where
  "on event callback s =
     (let s1 = (if listeners s event = None
                then s\<lparr>listeners := (listeners s)(event \<mapsto> [])\<rparr> else s)
      in case listeners s1 event of
           Some callbacks \<Rightarrow> s1\<lparr>listeners := (listeners s1)(event \<mapsto> callbacks @ [callback])\<rparr>
         | None \<Rightarrow> s1)"

text \<open>
  \<^verbatim>\<open>Array.prototype.forEach\<close> with a callback that may throw: the elements are visited
  from the front; a throw leaves the loop at once and propagates. The first component of
  the result lists the elements the callback was called on, in call order.
\<close>

fun forEach :: "('a \<Rightarrow> 'w \<Rightarrow> 'w completion) \<Rightarrow> 'a list \<Rightarrow> 'w \<Rightarrow> 'a list \<times> 'w completion" where
  "forEach f [] w = ([], Normal w)"
| "forEach f (x # xs) w =
     (case f x w of
        Throw e w' \<Rightarrow> ([x], Throw e w')
      | Normal w' \<Rightarrow> (case forEach f xs w' of (called, r) \<Rightarrow> (x # called, r)))"

text \<open>
  \<^verbatim>\<open>emit(event, data)\<close>: nothing when the event has no array, otherwise
  \<^verbatim>\<open>forEach(callback => callback(data))\<close> with no \<^verbatim>\<open>try\<close> around the call.
\<close>

definition emit :: "(ref \<Rightarrow> 'w handler) \<Rightarrow> string \<Rightarrow> audioChunk \<Rightarrow> service \<Rightarrow> 'w
    \<Rightarrow> ref list \<times> 'w completion" where
  "emit funs event d s w =
     (case listeners s event of
        None \<Rightarrow> ([], Normal w)
      | Some callbacks \<Rightarrow> forEach (\<lambda>callback. funs callback d) callbacks w)"

text \<open>
  \<^verbatim>\<open>sendAudioChunk(audioChunk)\<close>: push, then one \<^verbatim>\<open>shift()\<close> when the length has passed
  \<^verbatim>\<open>maxChunksInMemory\<close>. The transmission itself is a comment in the source.
\<close>

definition sendAudioChunk :: "audioChunk \<Rightarrow> service \<Rightarrow> service" where
  "sendAudioChunk c s =
     (let s1 = s\<lparr>chunkBuffer := chunkBuffer s @ [c]\<rparr>
      in if length (chunkBuffer s1) > maxChunksInMemory
         then s1\<lparr>chunkBuffer := tl (chunkBuffer s1)\<rparr> else s1)"

definition getBufferedChunks :: "service \<Rightarrow> nat" where
  "getBufferedChunks s = length (chunkBuffer s)"

definition clearBuffer :: "service \<Rightarrow> service" where
  "clearBuffer s = s\<lparr>chunkBuffer := []\<rparr>"

text \<open>A run of \<^verbatim>\<open>sendAudioChunk\<close> calls, in call order.\<close>

definition sendAll :: "audioChunk list \<Rightarrow> service \<Rightarrow> service" where
  "sendAll cs s = foldl (\<lambda>s c. sendAudioChunk c s) s cs"


text \<open>
  \<^verbatim>\<open>generateMockAudioChunk(index)\<close> returns the same base64 text for every index.
\<close>

definition mockM4AHeader :: string where
  "mockM4AHeader = ''AAAAGGZ0eXBpc29tAAABzGlzb21pc28yYXZjMW1wNDEAAAAAAAAAAAT4bW9vdgAAAGxtdmhkAAAAAAAAAAAAAAAAAAAAATAAAANQAAEAAAEAAAAAAAAAAAAAAAABAAAAAAAAAAAAAAAAAAAAAAAAAAAAAAAAAAAAAAAAAAAAAgAAAAAAAAAAAAAAAAAAAAAAAAAAAAAAAAAAAAAAAAADAAAB2HRyYWsAAABcdGtoZAAAAAAAAAAAAAAAAAABAAAAAAAAA1AAAAAAAAAAAAAAAAEAAAAAAAAAAAAAAAAAAAAAAAAAAAAAAAAAAAAAAAAABAAAAAAAAAAAAAAAAAAAAAAAAAAAAAAAAAAAAAAAAAABAAABwG1kaWEAAAAgbWRoZAAAAAAAAAAAAAAAAAAoBAAAAKAVeQAAAAAALWhkbHIAAAAAAAAAAHNvdW4AAAAAAAAAAAAAAABTb3VuZEhhbmRsZXIAAAABZ21pbmYAAAAQc21oZAAAAAAAAAAAAAAAJGRpbmYAAAAcZHJlZgAAAAAAAAABAAAADHVybCAAAAABAAABJ3N0YmwAAABnc3RzZAAAAAAAAAABAAAAV21wNGEAAAAAAAAAAQAAAAAAAAAAAAIAEAAAAAooAAAAOGVzZHMAAAAAA4CAgCIAAgAEgICAFEAVAAIAAAGgAAGAjgICpOQwBQYawA==''"

definition generateMockAudioChunk :: "int \<Rightarrow> string" where
  "generateMockAudioChunk i = mockM4AHeader"

text \<open>
  \<^verbatim>\<open>simulateIncomingAudioChunks()\<close>: \<^verbatim>\<open>let chunkIndex = 0\<close>, an existing timer is
  cleared, and a new one is installed with
  \<^verbatim>\<open>setInterval(..., AUDIO_CONFIG.chunking.chunkDurationMs)\<close>.
\<close>

definition simulateIncomingAudioChunks :: "service \<Rightarrow> service" where
  "simulateIncomingAudioChunks s =
     s\<lparr>simulationInterval := Some \<lparr> intervalMs = chunkDurationMs, simChunkIndex = 0 \<rparr>\<rparr>"

definition stopSimulation :: "service \<Rightarrow> service" where
  "stopSimulation s = s\<lparr>simulationInterval := None\<rparr>"

text \<open>
  One firing of the timer, at clock reading \<open>now\<close>. A cleared timer does not fire. The
  object literal evaluates \<^verbatim>\<open>chunkIndex++\<close> before \<^verbatim>\<open>emit\<close> is called; an exception
  out of \<^verbatim>\<open>emit\<close> leaves the callback before the test \<^verbatim>\<open>chunkIndex >= 10\<close>. The
  result is the service, the chunk handed to \<^verbatim>\<open>emit\<close> (if the timer fired) and how the
  callback completed.
\<close>

definition intervalCallback :: "(ref \<Rightarrow> 'w handler) \<Rightarrow> int \<Rightarrow> service \<Rightarrow> 'w
    \<Rightarrow> service \<times> audioChunk option \<times> 'w completion" where
  "intervalCallback funs now s w =
     (case simulationInterval s of
        None \<Rightarrow> (s, None, Normal w)
      | Some t \<Rightarrow>
          (let mockChunk = \<lparr> data = generateMockAudioChunk (simChunkIndex t), index = simChunkIndex t,
                 timestamp = now, duration = chunkDurationMs, format = ''m4a'' \<rparr>;
               s1 = s\<lparr>simulationInterval := Some (t\<lparr> simChunkIndex := simChunkIndex t + 1 \<rparr>)\<rparr>
           in case snd (emit funs ''incoming_audio_chunk'' mockChunk s1 w) of
                Throw e w' \<Rightarrow> (s1, Some mockChunk, Throw e w')
              | Normal w' \<Rightarrow>
                  (if simChunkIndex t + 1 \<ge> 10 then s1\<lparr>simulationInterval := None\<rparr> else s1,
                   Some mockChunk, Normal w')))"

fun after :: "'w completion \<Rightarrow> 'w" where
  "after (Normal w) = w"
| "after (Throw e w) = w"

text \<open>
  Successive firings, one per clock reading of the list; an exception out of a timer
  callback is reported by the host and the timer goes on. The second component collects
  the chunks handed to \<^verbatim>\<open>emit\<close>, in order.
\<close>

fun ticks :: "(ref \<Rightarrow> 'w handler) \<Rightarrow> int list \<Rightarrow> service \<Rightarrow> 'w
    \<Rightarrow> service \<times> audioChunk list \<times> 'w" where
  "ticks funs [] s w = (s, [], w)"
| "ticks funs (now # nows) s w =
     (case intervalCallback funs now s w of
        (s1, out, r) \<Rightarrow>
          (case ticks funs nows s1 (after r) of
             (s2, outs, w2) \<Rightarrow> (s2, (case out of None \<Rightarrow> [] | Some c \<Rightarrow> [c]) @ outs, w2)))"


text \<open>
  The clock readings at which a timer installed at reading \<open>start\<close> fires for the first
  \<open>n\<close> times when the host keeps its period exactly: \<open>start + ms\<close>, \<open>start + 2 ms\<close>, ...
  (no readings without a timer).
\<close>

definition firingTimes :: "int \<Rightarrow> service \<Rightarrow> nat \<Rightarrow> int list" where
  "firingTimes start s n =
     (case simulationInterval s of
        None \<Rightarrow> []
      | Some t \<Rightarrow> map (\<lambda>k. start + (int k + 1) * intervalMs t) [0..<n])"


section \<open>The playback hook: useAudioPlayback.js\<close>

text \<open>
  A function declared in the body of a React hook reads the state variables
  (\<^verbatim>\<open>isPlaying\<close>, \<^verbatim>\<open>volume\<close>) of the render that created it. The values a closure sees
  are passed to the model explicitly; refs (\<^verbatim>\<open>.current\<close>) and state setters act on the
  hook's state.
\<close>

record render =
  seenIsPlaying :: bool
  seenVolume :: number

text \<open>
  The media and file APIs are outside the repository. The model records the requests the
  hook makes, in order, and takes the way each awaited request settles as an input. A
  sound object is known by the chunk index of the temporary file it was created from and
  by the volume it was created with.
\<close>

datatype sound = Sound int number

datatype device_call =
    WriteFile int
  | CreateSound int number
  | UnloadSound sound
  | DeleteFile int
  | StopSound sound
  | PauseSound sound
  | PlaySound sound
  | SetVolume sound number

datatype play_event = PlayBegin audioChunk | PlayEnd audioChunk

text \<open>
  The state of the hook: the five \<^verbatim>\<open>useState\<close> cells and the refs. Four further
  fields observe the execution: \<open>awaiting\<close> is the chunk whose
  \<^verbatim>\<open>await playAudioChunk(audioChunk)\<close> the drain loop is suspended at; \<open>sounding\<close> says
  that this call has passed \<^verbatim>\<open>createAsync\<close> and waits for the end of playback;
  \<open>deviceCalls\<close> lists the requests made to the media and file APIs; \<open>playTrace\<close> lists
  the calls of \<^verbatim>\<open>playAudioChunk\<close> begun and returned.
\<close>

record playback =
  isPlaying :: bool
  playbackState :: audio_state
  error :: "js_error option"
  volume :: number
  bufferedChunks :: nat
  soundRef :: "sound option"
  audioQueueRef :: "audioChunk list"
  isProcessingRef :: bool
  awaiting :: "audioChunk option"
  sounding :: bool
  deviceCalls :: "device_call list"
  playTrace :: "play_event list"

definition useAudioPlayback :: playback where
  "useAudioPlayback =
     \<lparr> isPlaying = False, playbackState = IDLE, error = None, volume = Num 1,
       bufferedChunks = 0, soundRef = None, audioQueueRef = [], isProcessingRef = False,
       awaiting = None, sounding = False, deviceCalls = [], playTrace = [] \<rparr>"

text \<open>What a render sees of the state cells, and the first render.\<close>

definition renderOf :: "playback \<Rightarrow> render" where
  "renderOf st = \<lparr> seenIsPlaying = isPlaying st, seenVolume = volume st \<rparr>"

definition firstRender :: render where
  "firstRender = \<lparr> seenIsPlaying = False, seenVolume = Num 1 \<rparr>"

text \<open>
  How one call of \<^verbatim>\<open>playAudioChunk\<close> settles: every awaited request resolves (and the
  end-of-playback signal arrives), or one of them rejects. A call whose sound never
  finishes does not settle at all.
\<close>

datatype play_outcome =
    Played
  | WriteRejects js_error
  | CreateRejects js_error
  | UnloadRejects js_error
  | DeleteRejects js_error

text \<open>
  \<^verbatim>\<open>playAudioChunk(audioChunk)\<close>, one equation per path through its \<^verbatim>\<open>try\<close> block. The
  \<^verbatim>\<open>catch\<close> stores the error and the function returns normally on every path. The
  reference \<^verbatim>\<open>soundRef.current\<close> is kept after \<^verbatim>\<open>unloadAsync\<close>.
\<close>

fun playAudioChunk :: "render \<Rightarrow> play_outcome \<Rightarrow> audioChunk \<Rightarrow> playback \<Rightarrow> playback" where
  "playAudioChunk r (WriteRejects e) c st =
     st\<lparr> deviceCalls := deviceCalls st @ [WriteFile (index c)], error := Some e \<rparr>"
| "playAudioChunk r (CreateRejects e) c st =
     st\<lparr> deviceCalls := deviceCalls st @
            [WriteFile (index c), CreateSound (index c) (seenVolume r)],
         error := Some e \<rparr>"
| "playAudioChunk r (UnloadRejects e) c st =
     st\<lparr> deviceCalls := deviceCalls st @
            [WriteFile (index c), CreateSound (index c) (seenVolume r),
             UnloadSound (Sound (index c) (seenVolume r))],
         soundRef := Some (Sound (index c) (seenVolume r)), isPlaying := True,
         error := Some e \<rparr>"
| "playAudioChunk r (DeleteRejects e) c st =
     st\<lparr> deviceCalls := deviceCalls st @
            [WriteFile (index c), CreateSound (index c) (seenVolume r),
             UnloadSound (Sound (index c) (seenVolume r)), DeleteFile (index c)],
         soundRef := Some (Sound (index c) (seenVolume r)), isPlaying := True,
         error := Some e \<rparr>"
| "playAudioChunk r Played c st =
     st\<lparr> deviceCalls := deviceCalls st @
            [WriteFile (index c), CreateSound (index c) (seenVolume r),
             UnloadSound (Sound (index c) (seenVolume r)), DeleteFile (index c)],
         soundRef := Some (Sound (index c) (seenVolume r)), isPlaying := True \<rparr>"

text \<open>
  The same call in two parts. \<open>soundCreated\<close> is the call from its start to the wait for
  the end of playback, the write and the creation having resolved: the sound is in
  \<^verbatim>\<open>soundRef.current\<close> and \<^verbatim>\<open>setIsPlaying(true)\<close> has run. \<open>afterSound\<close> is the rest of
  the call from that wait on. After the creation has resolved only \<^verbatim>\<open>unloadAsync\<close> and
  \<^verbatim>\<open>deleteAsync\<close> can still reject; an outcome that names an earlier request is read
  there as a rejection with no further request. The requests of a call are listed in
  \<open>deviceCalls\<close> when the step that covers them is taken.
\<close>

definition soundCreated :: "render \<Rightarrow> audioChunk \<Rightarrow> playback \<Rightarrow> playback" where
  "soundCreated r c st =
     st\<lparr> deviceCalls := deviceCalls st @
            [WriteFile (index c), CreateSound (index c) (seenVolume r)],
         soundRef := Some (Sound (index c) (seenVolume r)), isPlaying := True \<rparr>"

fun afterSound :: "render \<Rightarrow> play_outcome \<Rightarrow> audioChunk \<Rightarrow> playback \<Rightarrow> playback" where
  "afterSound r Played c st =
     st\<lparr> deviceCalls := deviceCalls st @
            [UnloadSound (Sound (index c) (seenVolume r)), DeleteFile (index c)] \<rparr>"
| "afterSound r (UnloadRejects e) c st =
     st\<lparr> deviceCalls := deviceCalls st @ [UnloadSound (Sound (index c) (seenVolume r))],
         error := Some e \<rparr>"
| "afterSound r (DeleteRejects e) c st =
     st\<lparr> deviceCalls := deviceCalls st @
            [UnloadSound (Sound (index c) (seenVolume r)), DeleteFile (index c)],
         error := Some e \<rparr>"
| "afterSound r (WriteRejects e) c st = st\<lparr> error := Some e \<rparr>"
| "afterSound r (CreateRejects e) c st = st\<lparr> error := Some e \<rparr>"

fun failure :: "play_outcome \<Rightarrow> js_error option" where
  "failure Played = None"
| "failure (WriteRejects e) = Some e"
| "failure (CreateRejects e) = Some e"
| "failure (UnloadRejects e) = Some e"
| "failure (DeleteRejects e) = Some e"

text \<open>
  The drain loop of \<^verbatim>\<open>processAudioQueue\<close> runs until its first \<^verbatim>\<open>await\<close> and is resumed
  when the awaited call settles. \<open>whileHead\<close> is the loop from its test to the next
  suspension: with an empty queue the loop ends and the \<^verbatim>\<open>finally\<close> block runs;
  otherwise the head is shifted out, the buffered count is set and \<^verbatim>\<open>playAudioChunk\<close>
  is called on it. The \<^verbatim>\<open>catch\<close> of \<^verbatim>\<open>processAudioQueue\<close> has no path to it: neither
  \<^verbatim>\<open>playAudioChunk\<close> nor the 10 ms timer rejects. The model follows one drain loop:
  \<open>awaiting\<close> is the suspended call of the loop started last.
\<close>

definition whileHead :: "playback \<Rightarrow> playback" where
  "whileHead st =
     (case audioQueueRef st of
        [] \<Rightarrow> st\<lparr> isProcessingRef := False, playbackState := IDLE, isPlaying := False \<rparr>
      | c # rest \<Rightarrow>
          st\<lparr> audioQueueRef := rest, bufferedChunks := length rest, awaiting := Some c,
              sounding := False, playTrace := playTrace st @ [PlayBegin c] \<rparr>)"

definition processAudioQueue :: "playback \<Rightarrow> playback" where
  "processAudioQueue st =
     (if isProcessingRef st \<or> audioQueueRef st = [] then st
      else whileHead (st\<lparr> isProcessingRef := True, playbackState := PLAYING \<rparr>))"

text \<open>\<^verbatim>\<open>handleIncomingAudioChunk(audioChunk)\<close>, the listener of \<^verbatim>\<open>incoming_audio_chunk\<close>.\<close>

definition handleIncomingAudioChunk :: "render \<Rightarrow> audioChunk \<Rightarrow> playback \<Rightarrow> playback" where
  "handleIncomingAudioChunk r audioChunk st =
     (let st1 = st\<lparr> audioQueueRef := audioQueueRef st @ [audioChunk] \<rparr>;
          st2 = st1\<lparr> bufferedChunks := length (audioQueueRef st1) \<rparr>
      in if \<not> isProcessingRef st2 \<and>
            (length (audioQueueRef st2) \<ge> bufferSize \<or> seenIsPlaying r)
         then processAudioQueue st2 else st2)"

text \<open>
  While the drain loop is suspended in \<^verbatim>\<open>await playAudioChunk(audioChunk)\<close>, the creation
  of the sound resolves: the suspended call goes on to its wait for the end of playback.
  Nothing happens when no call is suspended or the sound exists already.
\<close>

definition soundStarts :: "render \<Rightarrow> playback \<Rightarrow> playback" where
  "soundStarts r st =
     (case awaiting st of
        None \<Rightarrow> st
      | Some c \<Rightarrow> if sounding st then st else (soundCreated r c st)\<lparr> sounding := True \<rparr>)"

text \<open>
  What is left of the suspended call when it settles with the given outcome: all of
  \<^verbatim>\<open>playAudioChunk\<close>, or its part after the creation of the sound when that has been
  seen to resolve.
\<close>

definition settles :: "render \<Rightarrow> play_outcome \<Rightarrow> audioChunk \<Rightarrow> playback \<Rightarrow> playback" where
  "settles r out c st =
     (if sounding st then afterSound r out c st else playAudioChunk r out c st)"

text \<open>
  The suspended \<^verbatim>\<open>await playAudioChunk(audioChunk)\<close> settles with the given outcome: the
  remaining effects of the call take place, the 10 ms pause passes, and the loop goes
  back to its test. Chunks that arrive while the loop is suspended only extend the
  queue, which the loop reads again at its test.
\<close>

definition playReturns :: "render \<Rightarrow> play_outcome \<Rightarrow> playback \<Rightarrow> playback" where
  "playReturns r out st =
     (case awaiting st of
        None \<Rightarrow> st
      | Some c \<Rightarrow>
          whileHead ((settles r out c st)
            \<lparr> awaiting := None, sounding := False, playTrace := playTrace st @ [PlayEnd c] \<rparr>))"

datatype event = ChunkArrives audioChunk | SoundStarts | PlayReturns play_outcome

fun step :: "render \<Rightarrow> event \<Rightarrow> playback \<Rightarrow> playback" where
  "step r (ChunkArrives c) st = handleIncomingAudioChunk r c st"
| "step r SoundStarts st = soundStarts r st"
| "step r (PlayReturns out) st = playReturns r out st"

definition run :: "render \<Rightarrow> event list \<Rightarrow> playback \<Rightarrow> playback" where
  "run r evs st = foldl (\<lambda>s ev. step r ev s) st evs"

fun arrivals :: "event list \<Rightarrow> audioChunk list" where
  "arrivals [] = []"
| "arrivals (ChunkArrives c # evs) = c # arrivals evs"
| "arrivals (SoundStarts # evs) = arrivals evs"
| "arrivals (PlayReturns out # evs) = arrivals evs"

text \<open>The chunks whose play step has begun, in order, and the trace of complete plays.\<close>

fun begun :: "play_event list \<Rightarrow> audioChunk list" where
  "begun [] = []"
| "begun (PlayBegin c # t) = c # begun t"
| "begun (PlayEnd c # t) = begun t"

fun played :: "audioChunk list \<Rightarrow> play_event list" where
  "played [] = []"
| "played (c # cs) = PlayBegin c # PlayEnd c # played cs"

text \<open>
  \<^verbatim>\<open>stopPlayback()\<close>. The two arguments say how \<^verbatim>\<open>stopAsync()\<close> and \<^verbatim>\<open>unloadAsync()\<close>
  settle (\<open>None\<close>: resolved); a rejection goes to the \<^verbatim>\<open>catch\<close>, which stores the error
  and skips the rest of the \<^verbatim>\<open>try\<close> block.
\<close>

definition stopPlayback :: "js_error option \<Rightarrow> js_error option \<Rightarrow> playback \<Rightarrow> playback" where
  "stopPlayback stopAsync unloadAsync st =
     (let reset = (\<lambda>s. s\<lparr> audioQueueRef := [], isProcessingRef := False, bufferedChunks := 0,
                           isPlaying := False, playbackState := IDLE \<rparr>)
      in case soundRef st of
           None \<Rightarrow> reset st
         | Some current \<Rightarrow>
             (case stopAsync of
                Some err \<Rightarrow> st\<lparr> deviceCalls := deviceCalls st @ [StopSound current], error := Some err \<rparr>
              | None \<Rightarrow>
                  (case unloadAsync of
                     Some err \<Rightarrow>
                       st\<lparr> deviceCalls := deviceCalls st @ [StopSound current, UnloadSound current],
                           error := Some err \<rparr>
                   | None \<Rightarrow>
                       reset (st\<lparr> deviceCalls := deviceCalls st @ [StopSound current, UnloadSound current],
                                  soundRef := None \<rparr>))))"



text \<open>
  \<^verbatim>\<open>adjustVolume(newVolume)\<close> on a number. The guard is
  \<^verbatim>\<open>newVolume < 0 || newVolume > 1\<close>; both comparisons are false for \<^verbatim>\<open>NaN\<close>. The first
  argument says how \<^verbatim>\<open>setVolumeAsync\<close> settles. An argument that is not a number
  (\<^verbatim>\<open>undefined\<close>, a string) is compared through its conversion to a number and is not
  represented.
\<close>

definition adjustVolume :: "js_error option \<Rightarrow> number \<Rightarrow> playback \<Rightarrow> playback" where
  "adjustVolume setVolumeAsync newVolume st =
     (if lessThan newVolume (Num 0) \<or> lessThan (Num 1) newVolume then st
      else (let st1 = st\<lparr> volume := newVolume \<rparr>
            in case soundRef st1 of
                 None \<Rightarrow> st1
               | Some current \<Rightarrow>
                   (let st2 = st1\<lparr> deviceCalls := deviceCalls st1 @ [SetVolume current newVolume] \<rparr>
                    in case setVolumeAsync of
                         None \<Rightarrow> st2
                       | Some err \<Rightarrow> st2\<lparr> error := Some err \<rparr>)))"


section \<open>The recording hook: useAudioRecording.js\<close>

text \<open>
  The chunk counter \<^verbatim>\<open>chunkCountRef.current\<close> and the state cell \<^verbatim>\<open>chunksRecorded\<close>;
  \<^verbatim>\<open>startRecording\<close> sets both to 0 when a session starts.
\<close>

record recorder =
  chunkCountRef :: int
  chunksRecorded :: int

definition sessionStart :: "recorder \<Rightarrow> recorder" where
  "sessionStart rec = rec\<lparr> chunkCountRef := 0, chunksRecorded := 0 \<rparr>"

text \<open>
  What the recording and file APIs answer during one call of \<^verbatim>\<open>stopCurrentChunk\<close>:
  whether \<^verbatim>\<open>stopAndUnloadAsync()\<close> rejects, the value of \<^verbatim>\<open>getURI()\<close>, the result of
  \<^verbatim>\<open>readAsStringAsync\<close>, the clock, and whether \<^verbatim>\<open>deleteAsync\<close> rejects.
\<close>

record chunk_io =
  stopAndUnloadAsync :: "js_error option"
  getURI :: "string option"
  readAsStringAsync :: "js_error + string"
  dateNow :: int
  deleteAsync :: "js_error option"

text \<open>
  \<^verbatim>\<open>processAudioChunk(uri, chunkIndex)\<close>: the result is the chunk passed to
  \<^verbatim>\<open>AudioStreamingService.sendAudioChunk\<close>, or nothing when reading the file failed (the
  \<^verbatim>\<open>catch\<close> only logs).
\<close>

definition processAudioChunk :: "chunk_io \<Rightarrow> string \<Rightarrow> int \<Rightarrow> audioChunk option" where
  "processAudioChunk io uri chunkIndex =
     (case readAsStringAsync io of
        Inl err \<Rightarrow> None
      | Inr base64Audio \<Rightarrow>
          Some \<lparr> data = base64Audio, index = chunkIndex, timestamp = dateNow io,
                 duration = chunkDurationMs, format = ''m4a'' \<rparr>)"

text \<open>
  \<^verbatim>\<open>stopCurrentChunk(recording)\<close>: a rejected stop and a missing or empty URI leave the
  counter alone; otherwise the counter is incremented, copied to \<^verbatim>\<open>chunksRecorded\<close> and passed
  to \<^verbatim>\<open>processAudioChunk\<close>. A failing \<^verbatim>\<open>deleteAsync\<close> is logged after all of that.
\<close>

definition stopCurrentChunk :: "chunk_io \<Rightarrow> recorder \<Rightarrow> recorder \<times> audioChunk option" where
  "stopCurrentChunk io rec =
     (case stopAndUnloadAsync io of
        Some err \<Rightarrow> (rec, None)
      | None \<Rightarrow>
          (case getURI io of
             None \<Rightarrow> (rec, None)
           | Some uri \<Rightarrow>
               (if uri = [] then (rec, None)
                else (let rec1 = rec\<lparr> chunkCountRef := chunkCountRef rec + 1 \<rparr>;
                          rec2 = rec1\<lparr> chunksRecorded := chunkCountRef rec1 \<rparr>
                      in (rec2, processAudioChunk io uri (chunkCountRef rec2))))))"

text \<open>A chunk recording is finalized when the stop resolved and \<^verbatim>\<open>if (uri)\<close> passed.\<close>

definition finalized :: "chunk_io \<Rightarrow> bool" where
  "finalized io = (stopAndUnloadAsync io = None \<and> truthy (getURI io))"

text \<open>
  The chunk recordings of one session, one after the other; the second component
  collects the chunks passed to the transport, in order.
\<close>

fun recordChunks :: "chunk_io list \<Rightarrow> recorder \<Rightarrow> recorder \<times> audioChunk list" where
  "recordChunks [] rec = (rec, [])"
| "recordChunks (io # ios) rec =
     (case stopCurrentChunk io rec of
        (rec1, out) \<Rightarrow>
          (case recordChunks ios rec1 of
             (rec2, outs) \<Rightarrow> (rec2, (case out of None \<Rightarrow> [] | Some c \<Rightarrow> [c]) @ outs)))"


section \<open>The WebSocket address: config/websocket.ts\<close>

text \<open>
  \<^verbatim>\<open>process.env.NEXT_PUBLIC_WEBSOCKET_URL\<close> is \<^verbatim>\<open>undefined\<close> (\<open>None\<close>) or a string. The
  source tests it with \<^verbatim>\<open>||\<close> and \<^verbatim>\<open>if\<close>: the empty string counts as not set.
\<close>

definition websocketUrl :: "string option \<Rightarrow> string" where
  "websocketUrl env =
     (case env of
        None \<Rightarrow> ''ws://localhost:8000''
      | Some u \<Rightarrow> if u = [] then ''ws://localhost:8000'' else u)"

text \<open>\<^verbatim>\<open>baseUrl.replace(/^wss?:\/\//, '')\<close>.\<close>

definition removeProtocol :: "string \<Rightarrow> string" where
  "removeProtocol u =
     (if prefix ''ws://'' u then drop 5 u
      else if prefix ''wss://'' u then drop 6 u
      else u)"

definition getWebSocketUrl :: "string option \<Rightarrow> string \<Rightarrow> string" where
  "getWebSocketUrl env endpoint =
     (let baseUrl = websocketUrl env
      in if truthy env then ''wss://'' @ removeProtocol baseUrl @ endpoint
         else (let protocol = (if prefix ''wss://'' baseUrl then ''wss://'' else ''ws://'');
                   cleanUrl = removeProtocol baseUrl
               in protocol @ cleanUrl @ endpoint))"

text \<open>A chunk for concrete instances.\<close>

definition sampleChunk :: "int \<Rightarrow> audioChunk" where
  "sampleChunk i =
     \<lparr> data = ''AAAA'', index = i, timestamp = 0, duration = chunkDurationMs, format = ''m4a'' \<rparr>"


section \<open>Runs, observers and sample values used in the statements\<close>

text \<open>Several \<^verbatim>\<open>on\<close> calls for one event, in call order, and the array they build.\<close>

definition onAll :: "string \<Rightarrow> ref list \<Rightarrow> service \<Rightarrow> service" where
  "onAll event callbacks s = foldl (\<lambda>s callback. on event callback s) s callbacks"

definition registered :: "service \<Rightarrow> string \<Rightarrow> ref list" where
  "registered s event = (case listeners s event of None \<Rightarrow> [] | Some callbacks \<Rightarrow> callbacks)"

text \<open>
  Handlers for concrete instances: each appends its own reference to a log; the handler
  behind reference 0 then throws.
\<close>

definition sampleFuns :: "ref \<Rightarrow> ref list handler" where
  "sampleFuns callback d w =
     (if callback = 0 then Throw ''boom'' (w @ [callback]) else Normal (w @ [callback]))"


text \<open>A hook state in the middle of a drain: a sound is loaded and a chunk is queued.\<close>

definition stalledPlayback :: playback where
  "stalledPlayback =
     useAudioPlayback\<lparr> isPlaying := True, playbackState := PLAYING, bufferedChunks := 1,
       soundRef := Some (Sound 3 (Num 1)), audioQueueRef := [sampleChunk 7],
       isProcessingRef := True \<rparr>"

text \<open>Answers of the recording and file APIs for concrete instances.\<close>

definition sampleIo :: "js_error + string \<Rightarrow> chunk_io" where
  "sampleIo res =
     \<lparr> stopAndUnloadAsync = None, getURI = Some ''file:///cache/recording.m4a'',
       readAsStringAsync = res, dateNow = 1000, deleteAsync = None \<rparr>"

text \<open>The chunk list of an optional chunk.\<close>

definition emitted :: "audioChunk option \<Rightarrow> audioChunk list" where
  "emitted out = (case out of None \<Rightarrow> [] | Some c \<Rightarrow> [c])"


text \<open>The chunk the simulation builds from its counter and the clock.\<close>

definition mockChunk :: "int \<times> int \<Rightarrow> audioChunk" where
  "mockChunk p =
     \<lparr> data = mockM4AHeader, index = fst p, timestamp = snd p, duration = chunkDurationMs,
       format = ''m4a'' \<rparr>"

text \<open>
  \<^verbatim>\<open>setupWebSocketListener\<close> subscribes \<^verbatim>\<open>handleIncomingAudioChunk\<close>. The handler returns
  normally: \<^verbatim>\<open>processAudioQueue\<close> is an \<^verbatim>\<open>async\<close> function and is not awaited. The effect
  runs once, after the first render, so the subscribed closure is that render's.
\<close>

definition playbackListener :: "render \<Rightarrow> ref \<Rightarrow> playback handler" where
  "playbackListener r callback audioChunk st = Normal (handleIncomingAudioChunk r audioChunk st)"


text \<open>
  The chunks whose play step has returned, in order, and the invariant of the drain: the
  chunks that arrived are, in arrival order, those played to the end, the one in play
  and those still queued; the trace alternates begin and end; the processing flag is set
  exactly while a play is awaited.
\<close>

fun ended :: "play_event list \<Rightarrow> audioChunk list" where
  "ended [] = []"
| "ended (PlayBegin c # t) = ended t"
| "ended (PlayEnd c # t) = c # ended t"

definition fifo :: "audioChunk list \<Rightarrow> playback \<Rightarrow> bool" where
  "fifo arrived st =
     (arrived = ended (playTrace st) @ emitted (awaiting st) @ audioQueueRef st
      \<and> playTrace st = played (ended (playTrace st)) @ map PlayBegin (emitted (awaiting st))
      \<and> isProcessingRef st = (awaiting st \<noteq> None))"

section \<open>Retained buffer of the transport\<close>

lemma sendAudioChunk_buffer:
  "chunkBuffer (sendAudioChunk c s) =
     (if length (chunkBuffer s) < maxChunksInMemory then chunkBuffer s @ [c]
      else tl (chunkBuffer s @ [c]))"
  by (simp add: sendAudioChunk_def Let_def)

lemma sendAll_snoc: "sendAll (cs @ [c]) s = sendAudioChunk c (sendAll cs s)"
  by (simp add: sendAll_def)

lemma keep_last_step:
  fixes xs :: "'a list"
  shows "(if length (drop (length xs - n) xs) < n then drop (length xs - n) xs @ [c]
      else tl (drop (length xs - n) xs @ [c])) = drop (length (xs @ [c]) - n) (xs @ [c])"
proof (cases "length xs < n")
  case True
  then show ?thesis by simp
next
  case False
  define k where "k = length xs - n"
  have k: "k \<le> length xs" and len: "length (drop k xs) = n"
    using False by (simp_all add: k_def)
  have "drop k xs @ [c] = drop k (xs @ [c])"
    using k by simp
  then have "tl (drop k xs @ [c]) = drop (Suc k) (xs @ [c])"
    by (simp only: drop_Suc tl_drop)
  moreover have "length (xs @ [c]) - n = Suc k"
    using False by (simp add: k_def)
  ultimately show ?thesis
    using len unfolding k_def [symmetric] by simp
qed

lemma sendAll_buffer:
  "chunkBuffer s = drop (length xs - maxChunksInMemory) xs \<Longrightarrow>
   chunkBuffer (sendAll cs s) = drop (length (xs @ cs) - maxChunksInMemory) (xs @ cs)"
proof (induction cs rule: rev_induct)
  case Nil
  then show ?case by (simp add: sendAll_def)
next
  case (snoc c cs)
  then have "chunkBuffer (sendAll cs s) = drop (length (xs @ cs) - maxChunksInMemory) (xs @ cs)"
    by simp
  then show ?case
    using keep_last_step [of "xs @ cs" maxChunksInMemory c]
    by (simp only: sendAll_snoc sendAudioChunk_buffer append_assoc)
qed

text \<open>
  C6. Starting from the freshly constructed service, after any sequence of
  \<^verbatim>\<open>sendAudioChunk\<close> calls the retained buffer is the sequence of chunks sent with all
  but its last 20 dropped from the front, in send order; so it never holds more than 20
  chunks, and the inspection accessor \<^verbatim>\<open>getBufferedChunks\<close> reads the smaller of 20 and
  the number of chunks sent.
\<close>

theorem retained_buffer_most_recent:
  "chunkBuffer (sendAll cs constructor) = drop (length cs - 20) cs
   \<and> getBufferedChunks (sendAll cs constructor) = min (length cs) 20
   \<and> length (chunkBuffer (sendAll cs constructor)) \<le> 20"
proof -
  have "chunkBuffer (sendAll cs constructor) = drop (length cs - 20) cs"
    using sendAll_buffer [of constructor "[]" cs]
    by (simp add: constructor_def maxChunksInMemory_def)
  then show ?thesis
    by (simp add: getBufferedChunks_def min_def)
qed

theorem retained_buffer_most_recent_witness:
  "map index (chunkBuffer (sendAll (map sampleChunk [1..22]) constructor)) = [3..22]
   \<and> getBufferedChunks (sendAll (map sampleChunk [1..22]) constructor) = 20"
proof -
  have ints: "[1..22] = [1, 2, 3, 4, 5, 6, 7, 8, 9, 10, 11, 12, 13, 14, 15, 16, 17, 18, 19,
      20, 21, 22 :: int]"
    by code_simp
  have ints': "[3..22] = [3, 4, 5, 6, 7, 8, 9, 10, 11, 12, 13, 14, 15, 16, 17, 18, 19,
      20, 21, 22 :: int]"
    by code_simp
  show ?thesis
    using retained_buffer_most_recent [of "map sampleChunk [1..22]"]
    unfolding ints ints' by (simp add: sampleChunk_def)
qed

section \<open>Subscribing and emitting\<close>

lemma on_listeners:
  "listeners (on event callback s) event = Some (registered s event @ [callback])"
  by (simp add: on_def registered_def Let_def split: option.splits)

lemma onAll_snoc: "onAll event (hs @ [h]) s = on event h (onAll event hs s)"
  by (simp add: onAll_def)

lemma onAll_registered:
  "registered (onAll event hs s) event = registered s event @ hs"
proof (induction hs rule: rev_induct)
  case Nil
  show ?case by (simp add: onAll_def)
next
  case (snoc h hs)
  then show ?case
    by (simp add: onAll_snoc on_listeners registered_def [of "on event h (onAll event hs s)"])
qed

lemma registered_constructor: "registered (onAll event hs constructor) event = hs"
proof -
  have "registered constructor event = []"
    by (simp add: registered_def constructor_def)
  then show ?thesis
    by (simp add: onAll_registered)
qed

lemma emit_registered:
  "emit funs event d s w = forEach (\<lambda>callback. funs callback d) (registered s event) w"
  by (simp add: emit_def registered_def split: option.splits)

lemma forEach_all_return:
  "\<forall>x\<in>set xs. \<forall>w. \<exists>w'. f x w = Normal w' \<Longrightarrow>
   fst (forEach f xs w) = xs \<and> (\<exists>w'. snd (forEach f xs w) = Normal w')"
proof (induction xs arbitrary: w)
  case Nil
  show ?case by simp
next
  case (Cons x xs)
  from Cons.prems obtain w1 where w1: "f x w = Normal w1"
    by (meson list.set_intros(1))
  from Cons have "fst (forEach f xs w1) = xs \<and> (\<exists>w'. snd (forEach f xs w1) = Normal w')"
    by simp
  with w1 show ?case by (simp add: split_beta)
qed

lemma forEach_stops_at_throw:
  "\<forall>x\<in>set pre. \<forall>w. \<exists>w'. f x w = Normal w' \<Longrightarrow> \<forall>w. \<exists>e w'. f h w = Throw e w' \<Longrightarrow>
   fst (forEach f (pre @ h # post) w) = pre @ [h]
   \<and> (\<exists>e w'. snd (forEach f (pre @ h # post) w) = Throw e w')"
proof (induction pre arbitrary: w)
  case Nil
  then obtain e w' where "f h w = Throw e w'" by blast
  then show ?case by simp
next
  case (Cons x pre)
  from Cons.prems obtain w1 where w1: "f x w = Normal w1"
    by (meson list.set_intros(1))
  from Cons have "fst (forEach f (pre @ h # post) w1) = pre @ [h]
      \<and> (\<exists>e w'. snd (forEach f (pre @ h # post) w1) = Throw e w')"
    by simp
  with w1 show ?case by (simp add: split_beta)
qed

text \<open>
  C1 as stated fails: with the handlers behind references 0 and 1 registered in this
  order for one event, and the first of them throwing, \<^verbatim>\<open>emit\<close> calls handler 0 only.
  The exception leaves \<^verbatim>\<open>emit\<close>, and handler 1 is not called.
\<close>

theorem emit_isolation_counterexample:
  "fst (emit sampleFuns ''incoming_audio_chunk'' (sampleChunk 0)
          (onAll ''incoming_audio_chunk'' [0, 1] constructor) []) = [0]
   \<and> 1 \<notin> set (fst (emit sampleFuns ''incoming_audio_chunk'' (sampleChunk 0)
          (onAll ''incoming_audio_chunk'' [0, 1] constructor) []))
   \<and> snd (emit sampleFuns ''incoming_audio_chunk'' (sampleChunk 0)
          (onAll ''incoming_audio_chunk'' [0, 1] constructor) []) = Throw ''boom'' [0]"
  by (simp add: emit_registered registered_constructor sampleFuns_def)

text \<open>
  C1, amended. Handlers registered with \<^verbatim>\<open>on\<close> for one event are called by \<^verbatim>\<open>emit\<close> in
  registration order with the payload. When none of them throws, all of them are called
  and \<^verbatim>\<open>emit\<close> returns. When one throws, the handlers registered before it and the
  throwing handler have been called, no handler registered after it is called, and the
  exception leaves \<^verbatim>\<open>emit\<close>.
\<close>

theorem emit_registration_order:
  fixes funs :: "ref \<Rightarrow> 'w handler"
  shows
  "((\<forall>cb\<in>set hs. \<forall>w. \<exists>w'. funs cb d w = Normal w') \<longrightarrow>
      fst (emit funs event d (onAll event hs constructor) w) = hs
      \<and> (\<exists>w'. snd (emit funs event d (onAll event hs constructor) w) = Normal w'))
   \<and> ((\<forall>cb\<in>set pre. \<forall>w. \<exists>w'. funs cb d w = Normal w') \<and> (\<forall>w. \<exists>e w'. funs h d w = Throw e w') \<longrightarrow>
      fst (emit funs event d (onAll event (pre @ h # post) constructor) w) = pre @ [h]
      \<and> (\<exists>e w'. snd (emit funs event d (onAll event (pre @ h # post) constructor) w) = Throw e w'))"
  using forEach_all_return [of hs "\<lambda>callback. funs callback d" w]
    forEach_stops_at_throw [of pre "\<lambda>callback. funs callback d" h post w]
  by (simp only: emit_registered registered_constructor) blast

theorem emit_registration_order_witness:
  "fst (emit sampleFuns ''incoming_audio_chunk'' (sampleChunk 7)
          (onAll ''incoming_audio_chunk'' [1, 2] constructor) []) = [1, 2]
   \<and> fst (emit sampleFuns ''incoming_audio_chunk'' (sampleChunk 7)
          (onAll ''incoming_audio_chunk'' [1, 0, 2] constructor) []) = [1, 0]"
  using emit_registration_order [of "[1, 2]" sampleFuns "sampleChunk 7" "''incoming_audio_chunk''"
      "[]" "[1]" 0 "[2]"]
  by (simp add: sampleFuns_def)

section \<open>The WebSocket address\<close>

lemma removeProtocol_ws: "removeProtocol (''ws://'' @ host) = host"
  by (simp add: removeProtocol_def)

lemma removeProtocol_wss: "removeProtocol (''wss://'' @ host) = host"
  by (simp add: removeProtocol_def)

lemma getWebSocketUrl_empty_setting:
  "getWebSocketUrl (Some []) endpoint = ''ws://localhost:8000'' @ endpoint"
  by (simp add: getWebSocketUrl_def websocketUrl_def truthy_def removeProtocol_def)

text \<open>
  C10. The source takes the variable as set when its value is truthy, that is, a
  non-empty string. Then, for every endpoint, \<^verbatim>\<open>getWebSocketUrl\<close> returns \<^verbatim>\<open>wss://\<close>
  followed by the configured URL without a leading \<^verbatim>\<open>ws://\<close> or \<^verbatim>\<open>wss://\<close> and by the
  endpoint, also when the configured URL began with \<^verbatim>\<open>ws://\<close>. When the variable is
  undefined the result is \<^verbatim>\<open>ws://localhost:8000\<close> followed by the endpoint.
\<close>

theorem getWebSocketUrl_forces_wss:
  "(u \<noteq> [] \<longrightarrow>
      truthy (Some u)
      \<and> getWebSocketUrl (Some u) endpoint = ''wss://'' @ removeProtocol u @ endpoint
      \<and> prefix ''wss://'' (getWebSocketUrl (Some u) endpoint))
   \<and> removeProtocol (''ws://'' @ host) = host
   \<and> removeProtocol (''wss://'' @ host) = host
   \<and> \<not> truthy None
   \<and> getWebSocketUrl None endpoint = ''ws://localhost:8000'' @ endpoint
   \<and> prefix ''ws://'' (getWebSocketUrl None endpoint)"
  by (simp add: getWebSocketUrl_def websocketUrl_def truthy_def removeProtocol_ws
      removeProtocol_wss)
    (simp add: removeProtocol_def)

theorem getWebSocketUrl_forces_wss_witness:
  "getWebSocketUrl (Some ''ws://example.com:8000'') ''/ws/audio'' = ''wss://example.com:8000/ws/audio''
   \<and> getWebSocketUrl (Some ''wss://example.com'') ''/ws/audio'' = ''wss://example.com/ws/audio''
   \<and> getWebSocketUrl (Some ''example.com'') ''/ws/audio'' = ''wss://example.com/ws/audio''
   \<and> getWebSocketUrl None ''/ws/audio'' = ''ws://localhost:8000/ws/audio''"
  using getWebSocketUrl_forces_wss [of "''ws://example.com:8000''" "''/ws/audio''" "''example.com:8000''"]
    getWebSocketUrl_forces_wss [of "''wss://example.com''" "''/ws/audio''" "''example.com''"]
    getWebSocketUrl_forces_wss [of "''example.com''" "''/ws/audio''" "''example.com''"]
  by (simp add: removeProtocol_def)

section \<open>Volume\<close>

lemma adjustVolume_finite:
  "(v < 0 \<or> v > 1 \<longrightarrow> adjustVolume res (Num v) st = st)
   \<and> (0 \<le> v \<and> v \<le> 1 \<longrightarrow>
        volume (adjustVolume res (Num v) st) = Num v
        \<and> (soundRef st = None \<longrightarrow> deviceCalls (adjustVolume res (Num v) st) = deviceCalls st)
        \<and> (\<forall>current. soundRef st = Some current \<longrightarrow>
              deviceCalls (adjustVolume res (Num v) st) =
                deviceCalls st @ [SetVolume current (Num v)]))"
  by (auto simp add: adjustVolume_def Let_def split: option.splits)

lemma adjustVolume_infinite:
  "adjustVolume res Infinity st = st \<and> adjustVolume res NegInfinity st = st"
  by (simp add: adjustVolume_def)

lemma playAudioChunk_seen_volume:
  "soundRef (playAudioChunk r Played c st) = Some (Sound (index c) (seenVolume r))
   \<and> soundRef (soundCreated r c st) = Some (Sound (index c) (seenVolume r))"
  by (simp add: soundCreated_def)

lemma firstRender_seen: "firstRender = renderOf useAudioPlayback"
  by (simp add: firstRender_def renderOf_def useAudioPlayback_def)

text \<open>
  C7 does not hold on the code, in two places. First, \<^verbatim>\<open>NaN\<close> is outside \<open>[0, 1]\<close> and
  passes the guard, since \<^verbatim>\<open>NaN < 0\<close> and \<^verbatim>\<open>NaN > 1\<close> are both false:
  \<^verbatim>\<open>adjustVolume(NaN)\<close> stores \<^verbatim>\<open>NaN\<close> in the \<^verbatim>\<open>volume\<close> cell and sends it to a loaded
  sound. Second, after \<^verbatim>\<open>adjustVolume(0.5)\<close> the cell holds 0.5, but the drain that the
  subscribed listener starts runs the first render's \<^verbatim>\<open>playAudioChunk\<close>, which reads the
  first render's \<^verbatim>\<open>volume\<close>: the next sound is created with volume 1. (For a finite
  number the guard and the request to the loaded sound are as claimed, lemma
  \<open>adjustVolume_finite\<close>.)
\<close>

theorem adjustVolume_NaN_and_stale_volume:
  "volume (adjustVolume None NaN useAudioPlayback) = NaN
   \<and> adjustVolume None NaN useAudioPlayback \<noteq> useAudioPlayback
   \<and> deviceCalls (adjustVolume None NaN stalledPlayback) = [SetVolume (Sound 3 (Num 1)) NaN]
   \<and> volume (run firstRender
        [ChunkArrives (sampleChunk 0), ChunkArrives (sampleChunk 1), ChunkArrives (sampleChunk 2),
         ChunkArrives (sampleChunk 3), ChunkArrives (sampleChunk 4), SoundStarts]
        (adjustVolume None (Num (1 / 2)) useAudioPlayback)) = Num (1 / 2)
   \<and> deviceCalls (run firstRender
        [ChunkArrives (sampleChunk 0), ChunkArrives (sampleChunk 1), ChunkArrives (sampleChunk 2),
         ChunkArrives (sampleChunk 3), ChunkArrives (sampleChunk 4), SoundStarts]
        (adjustVolume None (Num (1 / 2)) useAudioPlayback)) = [WriteFile 0, CreateSound 0 (Num 1)]
   \<and> soundRef (run firstRender
        [ChunkArrives (sampleChunk 0), ChunkArrives (sampleChunk 1), ChunkArrives (sampleChunk 2),
         ChunkArrives (sampleChunk 3), ChunkArrives (sampleChunk 4), SoundStarts]
        (adjustVolume None (Num (1 / 2)) useAudioPlayback)) = Some (Sound 0 (Num 1))"
  by (simp add: adjustVolume_def useAudioPlayback_def stalledPlayback_def run_def
      handleIncomingAudioChunk_def processAudioQueue_def whileHead_def soundStarts_def
      soundCreated_def bufferSize_def firstRender_def sampleChunk_def Let_def)


section \<open>Stopping playback\<close>

lemma stopPlayback_clears:
  "soundRef st = None \<or> (stopAsync = None \<and> unloadAsync = None) \<Longrightarrow>
   audioQueueRef (stopPlayback stopAsync unloadAsync st) = []
   \<and> soundRef (stopPlayback stopAsync unloadAsync st) = None
   \<and> bufferedChunks (stopPlayback stopAsync unloadAsync st) = 0
   \<and> \<not> isPlaying (stopPlayback stopAsync unloadAsync st)
   \<and> \<not> isProcessingRef (stopPlayback stopAsync unloadAsync st)
   \<and> playbackState (stopPlayback stopAsync unloadAsync st) = IDLE
   \<and> deviceCalls (stopPlayback stopAsync unloadAsync st) =
       deviceCalls st @ (case soundRef st of None \<Rightarrow> []
                          | Some current \<Rightarrow> [StopSound current, UnloadSound current])"
  by (auto simp add: stopPlayback_def Let_def split: option.splits)

text \<open>
  C2 does not hold on the code. In the state \<open>stalledPlayback\<close> (a sound is referenced,
  one chunk is queued, the drain loop is running) with \<^verbatim>\<open>stopAsync()\<close> rejecting,
  \<^verbatim>\<open>stopPlayback\<close> returns with the queue, the sound reference, the buffered count, the
  playing flag and the state as they were; only the error is stored. The lemma
  \<open>stopPlayback_clears\<close> above gives the claimed state when no sound is referenced or
  both requests resolve.
\<close>

theorem stopPlayback_rejected_keeps_state:
  "audioQueueRef (stopPlayback (Some ''not loaded'') None stalledPlayback) = [sampleChunk 7]
   \<and> soundRef (stopPlayback (Some ''not loaded'') None stalledPlayback) = Some (Sound 3 (Num 1))
   \<and> bufferedChunks (stopPlayback (Some ''not loaded'') None stalledPlayback) = 1
   \<and> isPlaying (stopPlayback (Some ''not loaded'') None stalledPlayback)
   \<and> playbackState (stopPlayback (Some ''not loaded'') None stalledPlayback) = PLAYING
   \<and> error (stopPlayback (Some ''not loaded'') None stalledPlayback) = Some ''not loaded''"
  by (simp add: stopPlayback_def stalledPlayback_def useAudioPlayback_def)


section \<open>Chunk numbering of a recording session\<close>

lemma recordChunks_snoc:
  "recordChunks (ios @ [io]) rec =
     (fst (stopCurrentChunk io (fst (recordChunks ios rec))),
      snd (recordChunks ios rec) @ emitted (snd (stopCurrentChunk io (fst (recordChunks ios rec)))))"
  by (induction ios arbitrary: rec) (simp_all add: split_beta emitted_def)

lemma stopCurrentChunk_count:
  "chunkCountRef (fst (stopCurrentChunk io rec)) =
     chunkCountRef rec + (if finalized io then 1 else 0)"
  by (simp add: stopCurrentChunk_def finalized_def truthy_def Let_def split: option.splits)

lemma recordChunks_count:
  "chunkCountRef (fst (recordChunks ios rec)) =
     chunkCountRef rec + int (length (filter finalized ios))"
proof (induction ios rule: rev_induct)
  case Nil
  show ?case by simp
next
  case (snoc io ios)
  then show ?case
    by (simp add: recordChunks_snoc stopCurrentChunk_count)
qed

lemma stopCurrentChunk_finalized:
  "finalized io \<Longrightarrow> readAsStringAsync io = Inr b \<Longrightarrow>
   stopCurrentChunk io rec =
     (rec\<lparr> chunkCountRef := chunkCountRef rec + 1, chunksRecorded := chunkCountRef rec + 1 \<rparr>,
      Some \<lparr> data = b, index = chunkCountRef rec + 1, timestamp = dateNow io,
             duration = chunkDurationMs, format = ''m4a'' \<rparr>)"
  by (auto simp add: stopCurrentChunk_def finalized_def truthy_def processAudioChunk_def Let_def
      split: option.splits)

text \<open>
  C9. In a session (the counters set to 0 by \<^verbatim>\<open>startRecording\<close>), take any run of chunk
  recordings \<open>ios\<close> followed by one that is finalized (the stop resolved and a URI was
  returned) and whose file can be read. That chunk is passed to the transport with
  index \<open>n\<close>, where \<open>n\<close> is its position among the finalized recordings of the session,
  counted from 1; \<^verbatim>\<open>chunksRecorded\<close> and the counter ref both read \<open>n\<close> at that moment.
  A finalized recording whose file cannot be read advances the count and sends nothing.
\<close>

theorem chunk_index_is_count:
  assumes "finalized io" and "readAsStringAsync io = Inr b"
  shows "snd (recordChunks (ios @ [io]) (sessionStart rec)) =
           snd (recordChunks ios (sessionStart rec)) @
             [\<lparr> data = b, index = int (length (filter finalized ios)) + 1,
                timestamp = dateNow io, duration = chunkDurationMs, format = ''m4a'' \<rparr>]
         \<and> chunksRecorded (fst (recordChunks (ios @ [io]) (sessionStart rec))) =
             int (length (filter finalized ios)) + 1
         \<and> chunkCountRef (fst (recordChunks (ios @ [io]) (sessionStart rec))) =
             int (length (filter finalized ios)) + 1"
proof -
  have "chunkCountRef (fst (recordChunks ios (sessionStart rec))) =
      int (length (filter finalized ios))"
    by (simp add: recordChunks_count sessionStart_def)
  then show ?thesis
    using assms
    by (simp add: recordChunks_snoc stopCurrentChunk_finalized emitted_def)
qed

theorem chunk_index_is_count_witness:
  "map index (snd (recordChunks [sampleIo (Inr ''QUJD''), sampleIo (Inl ''unreadable''),
       sampleIo (Inr ''REVG'')] (sessionStart \<lparr> chunkCountRef = 41, chunksRecorded = 41 \<rparr>)))
     = [1, 3]
   \<and> chunksRecorded (fst (recordChunks [sampleIo (Inr ''QUJD''), sampleIo (Inl ''unreadable''),
       sampleIo (Inr ''REVG'')] (sessionStart \<lparr> chunkCountRef = 41, chunksRecorded = 41 \<rparr>))) = 3
   \<and> map index (snd (recordChunks [sampleIo (Inr ''QUJD'')]
       (sessionStart \<lparr> chunkCountRef = 41, chunksRecorded = 41 \<rparr>))) = [1]"
  using chunk_index_is_count [of "sampleIo (Inr ''REVG'')" "''REVG''"
      "[sampleIo (Inr ''QUJD''), sampleIo (Inl ''unreadable'')]"
      "\<lparr> chunkCountRef = 41, chunksRecorded = 41 \<rparr>"]
    chunk_index_is_count [of "sampleIo (Inr ''QUJD'')" "''QUJD''" "[]"
      "\<lparr> chunkCountRef = 41, chunksRecorded = 41 \<rparr>"]
  by (simp add: sampleIo_def finalized_def truthy_def sessionStart_def stopCurrentChunk_def
      processAudioChunk_def Let_def)

section \<open>Simulation mode of the transport\<close>

lemma ticks_cleared:
  "simulationInterval s = None \<Longrightarrow> ticks funs nows s w = (s, [], w)"
  by (induction nows) (simp_all add: intervalCallback_def)

lemma emit_returns:
  "\<forall>cb\<in>set (registered s event). \<forall>c w. \<exists>w'. funs cb c w = Normal w' \<Longrightarrow>
   \<exists>w'. snd (emit funs event d s w) = Normal w'"
  using forEach_all_return [of "registered s event" "\<lambda>callback. funs callback d" w]
  by (simp add: emit_registered)

lemma intervalCallback_fires:
  assumes "\<forall>cb\<in>set (registered s ''incoming_audio_chunk''). \<forall>c w. \<exists>w'. funs cb c w = Normal w'"
    and "simulationInterval s = Some t"
  shows "fst (intervalCallback funs now s w) =
           s\<lparr> simulationInterval :=
                (if simChunkIndex t + 1 \<ge> 10 then None
                 else Some (t\<lparr> simChunkIndex := simChunkIndex t + 1 \<rparr>)) \<rparr>
         \<and> fst (snd (intervalCallback funs now s w)) = Some (mockChunk (simChunkIndex t, now))"
proof -
  let ?s1 = "s\<lparr> simulationInterval := Some (t\<lparr> simChunkIndex := simChunkIndex t + 1 \<rparr>) \<rparr>"
  have "registered ?s1 ''incoming_audio_chunk'' = registered s ''incoming_audio_chunk''"
    by (simp add: registered_def)
  with assms(1) obtain w' where
    "snd (emit funs ''incoming_audio_chunk'' (mockChunk (simChunkIndex t, now)) ?s1 w) = Normal w'"
    using emit_returns [of ?s1 "''incoming_audio_chunk''" funs "mockChunk (simChunkIndex t, now)" w]
    by auto
  with assms(2) show ?thesis
    by (simp add: intervalCallback_def mockChunk_def generateMockAudioChunk_def Let_def)
qed

lemma ticks_from:
  assumes "\<forall>cb\<in>set (registered s ''incoming_audio_chunk''). \<forall>c w. \<exists>w'. funs cb c w = Normal w'"
    and "simulationInterval s = Some t" and "simChunkIndex t \<le> 9"
  shows "fst (snd (ticks funs nows s w)) = map mockChunk (zip [simChunkIndex t..9] nows)
         \<and> simulationInterval (fst (ticks funs nows s w)) =
             (if simChunkIndex t + int (length nows) \<ge> 10 then None
              else Some (t\<lparr> simChunkIndex := simChunkIndex t + int (length nows) \<rparr>))"
  using assms
proof (induction nows arbitrary: s t w)
  case Nil
  then show ?case by simp
next
  case (Cons now nows)
  let ?k = "simChunkIndex t"
  let ?t1 = "t\<lparr> simChunkIndex := ?k + 1 \<rparr>"
  let ?s1 = "s\<lparr> simulationInterval := (if ?k + 1 \<ge> 10 then None else Some ?t1) \<rparr>"
  obtain r where cb: "intervalCallback funs now s w = (?s1, Some (mockChunk (?k, now)), r)"
    using intervalCallback_fires [OF Cons.prems(1,2), of now w]
    by (cases "intervalCallback funs now s w") auto
  have reg: "registered ?s1 ''incoming_audio_chunk'' = registered s ''incoming_audio_chunk''"
    by (simp add: registered_def)
  have up: "[?k..9] = ?k # [?k + 1..9]"
    using Cons.prems(3) by (simp add: upto_rec1)
  show ?case
  proof (cases "?k + 1 \<ge> 10")
    case True
    then have "simulationInterval ?s1 = None" by simp
    then have "ticks funs nows ?s1 (after r) = (?s1, [], after r)"
      by (rule ticks_cleared)
    with True cb up show ?thesis by simp
  next
    case False
    then have k1: "simulationInterval ?s1 = Some ?t1" and le: "simChunkIndex ?t1 \<le> 9"
      by simp_all
    have "\<forall>cb\<in>set (registered ?s1 ''incoming_audio_chunk''). \<forall>c w. \<exists>w'. funs cb c w = Normal w'"
      using Cons.prems(1) reg by simp
    from Cons.IH [OF this k1 le, of "after r"] cb up show ?thesis
      by (simp add: split_beta add.assoc)
  qed
qed

lemma simulation_emits_ten:
  assumes "\<forall>cb\<in>set (registered s ''incoming_audio_chunk''). \<forall>c w. \<exists>w'. funs cb c w = Normal w'"
  shows "fst (snd (ticks funs nows (simulateIncomingAudioChunks s) w)) =
           map mockChunk (zip [0..9] nows)
         \<and> map index (fst (snd (ticks funs nows (simulateIncomingAudioChunks s) w))) =
             take (length nows) [0..9]
         \<and> length (fst (snd (ticks funs nows (simulateIncomingAudioChunks s) w))) =
             min (length nows) 10
         \<and> simulationInterval (fst (ticks funs nows (simulateIncomingAudioChunks s) w)) =
             (if length nows \<ge> 10 then None
              else Some \<lparr> intervalMs = 500, simChunkIndex = int (length nows) \<rparr>)"
proof -
  let ?s = "simulateIncomingAudioChunks s"
  let ?t = "\<lparr> intervalMs = chunkDurationMs, simChunkIndex = 0 \<rparr>"
  have reg: "registered ?s ''incoming_audio_chunk'' = registered s ''incoming_audio_chunk''"
    by (simp add: registered_def simulateIncomingAudioChunks_def)
  have "\<forall>cb\<in>set (registered ?s ''incoming_audio_chunk''). \<forall>c w. \<exists>w'. funs cb c w = Normal w'"
    using assms reg by simp
  moreover have "simulationInterval ?s = Some ?t"
    by (simp add: simulateIncomingAudioChunks_def)
  moreover have "simChunkIndex ?t \<le> 9"
    by simp
  ultimately have main: "fst (snd (ticks funs nows ?s w)) =
           map mockChunk (zip [simChunkIndex ?t..9] nows)
         \<and> simulationInterval (fst (ticks funs nows ?s w)) =
             (if simChunkIndex ?t + int (length nows) \<ge> 10 then None
              else Some (?t\<lparr> simChunkIndex := simChunkIndex ?t + int (length nows) \<rparr>))"
    by (rule ticks_from)
  have idx: "map index (map mockChunk (zip [0..9] nows)) = take (length nows) [0..9]"
  proof -
    have "map index (map mockChunk (zip [0..9] nows)) = map fst (zip [0..9] nows)"
      by (simp add: mockChunk_def comp_def)
    also have "\<dots> = take (length nows) [0..9]"
      by (simp add: map_fst_zip_take min_def)
    finally show ?thesis .
  qed
  have len: "length (zip [0..9::int] nows) = min (length nows) 10"
    by simp
  from main idx len show ?thesis by (simp add: chunkDurationMs_def)
qed

lemma zip_map_upt:
  "zip (map g [0..<a]) (map f [0..<b]) = map (\<lambda>k. (g k, f k)) [0..<min a b]"
  by (rule nth_equalityI) simp_all

lemma simulation_on_schedule:
  assumes "\<forall>cb\<in>set (registered s ''incoming_audio_chunk''). \<forall>c w. \<exists>w'. funs cb c w = Normal w'"
  shows "firingTimes start (simulateIncomingAudioChunks s) n =
           map (\<lambda>k. start + (int k + 1) * 500) [0..<n]
         \<and> fst (snd (ticks funs (firingTimes start (simulateIncomingAudioChunks s) n)
                  (simulateIncomingAudioChunks s) w)) =
             map (\<lambda>k. mockChunk (int k, start + (int k + 1) * 500)) [0..<min n 10]"
proof -
  have times: "firingTimes start (simulateIncomingAudioChunks s) n =
      map (\<lambda>k. start + (int k + 1) * 500) [0..<n]"
    by (simp add: firingTimes_def simulateIncomingAudioChunks_def chunkDurationMs_def)
  have ints: "[0..9] = map int [0..<10]"
    by code_simp
  have "zip [0..9] (map (\<lambda>k. start + (int k + 1) * 500) [0..<n]) =
      map (\<lambda>k. (int k, start + (int k + 1) * 500)) [0..<min n 10]"
    unfolding ints by (simp only: zip_map_upt min.commute)
  with times
    simulation_emits_ten [OF assms, of "firingTimes start (simulateIncomingAudioChunks s) n" w]
  show ?thesis
    by (simp add: comp_def)
qed

lemma simulation_with_playback_listener:
  "map index (fst (snd (ticks (playbackListener firstRender)
       [500, 1000, 1500, 2000, 2500, 3000, 3500, 4000, 4500, 5000, 5500, 6000]
       (simulateIncomingAudioChunks (onAll ''incoming_audio_chunk'' [0] constructor))
       useAudioPlayback))) = [0, 1, 2, 3, 4, 5, 6, 7, 8, 9]
   \<and> simulationInterval (fst (ticks (playbackListener firstRender)
       [500, 1000, 1500, 2000, 2500, 3000, 3500, 4000, 4500, 5000, 5500, 6000]
       (simulateIncomingAudioChunks (onAll ''incoming_audio_chunk'' [0] constructor))
       useAudioPlayback)) = None
   \<and> map index (fst (snd (ticks (playbackListener firstRender) [500, 1000, 1500]
       (simulateIncomingAudioChunks (onAll ''incoming_audio_chunk'' [0] constructor))
       useAudioPlayback))) = [0, 1, 2]"
proof -
  have ints: "[0..9] = [0, 1, 2, 3, 4, 5, 6, 7, 8, 9 :: int]"
    by code_simp
  have ok: "\<forall>cb\<in>set (registered (onAll ''incoming_audio_chunk'' [0] constructor)
      ''incoming_audio_chunk''). \<forall>c w. \<exists>w'. playbackListener firstRender cb c w = Normal w'"
    by (simp add: playbackListener_def)
  show ?thesis
    using simulation_emits_ten [OF ok,
        of "[500, 1000, 1500, 2000, 2500, 3000, 3500, 4000, 4500, 5000, 5500, 6000]"
        useAudioPlayback]
      simulation_emits_ten [OF ok, of "[500, 1000, 1500]" useAudioPlayback]
    by (simp add: ints mockChunk_def del: ticks.simps)
qed

text \<open>
  C8 does not hold on the code. The timer callback calls \<^verbatim>\<open>emit\<close> before its test
  \<^verbatim>\<open>chunkIndex >= 10\<close>, under the comment \<^verbatim>\<open>Stop after 10 chunks\<close>, and an exception of a
  subscriber leaves the callback at \<^verbatim>\<open>emit\<close>: the test is skipped and the timer stays
  installed. With the throwing handler 0 subscribed, twelve firings emit twelve chunks,
  with indices 0 to 11, and the timer is still live. (With subscribers that return
  normally exactly the chunks 0 to 9 are emitted, one at each firing of the timer
  installed with the period 500, and the tenth firing clears the timer: lemmas
  \<open>simulation_emits_ten\<close> and \<open>simulation_on_schedule\<close>.)
\<close>

theorem simulation_not_stopped_by_throwing_subscriber:
  "map index (fst (snd (ticks sampleFuns
       [500, 1000, 1500, 2000, 2500, 3000, 3500, 4000, 4500, 5000, 5500, 6000]
       (simulateIncomingAudioChunks (onAll ''incoming_audio_chunk'' [0] constructor)) [])))
     = [0, 1, 2, 3, 4, 5, 6, 7, 8, 9, 10, 11]
   \<and> simulationInterval (fst (ticks sampleFuns
       [500, 1000, 1500, 2000, 2500, 3000, 3500, 4000, 4500, 5000, 5500, 6000]
       (simulateIncomingAudioChunks (onAll ''incoming_audio_chunk'' [0] constructor)) []))
     = Some \<lparr> intervalMs = 500, simChunkIndex = 12 \<rparr>
   \<and> firingTimes 0 (simulateIncomingAudioChunks (onAll ''incoming_audio_chunk'' [0] constructor)) 12
     = [500, 1000, 1500, 2000, 2500, 3000, 3500, 4000, 4500, 5000, 5500, 6000]"
proof -
  have upt: "[0..<12] = [0, 1, 2, 3, 4, 5, 6, 7, 8, 9, 10, 11]"
    by code_simp
  show ?thesis
    by (simp add: intervalCallback_def emit_def simulateIncomingAudioChunks_def onAll_def on_def
        constructor_def sampleFuns_def firingTimes_def chunkDurationMs_def upt Let_def)
qed


section \<open>The drain loop: order of playback\<close>

lemma played_snoc: "played (cs @ [c]) = played cs @ [PlayBegin c, PlayEnd c]"
  by (induction cs) simp_all

lemma played_append: "played (xs @ ys) = played xs @ played ys"
  by (induction xs) simp_all

lemma ended_append: "ended (t @ u) = ended t @ ended u"
  by (induction t rule: ended.induct) simp_all

lemma begun_append: "begun (t @ u) = begun t @ begun u"
  by (induction t rule: begun.induct) simp_all

lemma ended_played: "ended (played cs) = cs"
  by (induction cs) simp_all

lemma begun_played: "begun (played cs) = cs"
  by (induction cs) simp_all

lemma arrivals_append: "arrivals (evs @ evs') = arrivals evs @ arrivals evs'"
  by (induction evs rule: arrivals.induct) simp_all

lemma run_snoc: "run r (evs @ [ev]) st = step r ev (run r evs st)"
  by (simp add: run_def)

lemma playAudioChunk_frame:
  "audioQueueRef (playAudioChunk r out c st) = audioQueueRef st
   \<and> playTrace (playAudioChunk r out c st) = playTrace st
   \<and> awaiting (playAudioChunk r out c st) = awaiting st
   \<and> isProcessingRef (playAudioChunk r out c st) = isProcessingRef st
   \<and> bufferedChunks (playAudioChunk r out c st) = bufferedChunks st
   \<and> playbackState (playAudioChunk r out c st) = playbackState st"
  by (cases out) simp_all

lemma playAudioChunk_error:
  "error (playAudioChunk r out c st) = (case failure out of None \<Rightarrow> error st | Some e \<Rightarrow> Some e)"
  by (cases out) simp_all

lemma playAudioChunk_in_two:
  "failure out = None \<or> (\<exists>e. out = UnloadRejects e \<or> out = DeleteRejects e) \<Longrightarrow>
   playAudioChunk r out c st = afterSound r out c (soundCreated r c st)"
  by (cases out) (simp_all add: soundCreated_def)

lemma settles_frame:
  "audioQueueRef (settles r out c st) = audioQueueRef st
   \<and> playTrace (settles r out c st) = playTrace st
   \<and> awaiting (settles r out c st) = awaiting st
   \<and> isProcessingRef (settles r out c st) = isProcessingRef st
   \<and> bufferedChunks (settles r out c st) = bufferedChunks st
   \<and> playbackState (settles r out c st) = playbackState st"
  by (cases out) (simp_all add: settles_def)

lemma settles_error:
  "error (settles r out c st) = (case failure out of None \<Rightarrow> error st | Some e \<Rightarrow> Some e)"
  by (cases out) (simp_all add: settles_def)

lemma soundStarts_frame:
  "audioQueueRef (soundStarts r st) = audioQueueRef st
   \<and> playTrace (soundStarts r st) = playTrace st
   \<and> awaiting (soundStarts r st) = awaiting st
   \<and> isProcessingRef (soundStarts r st) = isProcessingRef st
   \<and> bufferedChunks (soundStarts r st) = bufferedChunks st
   \<and> playbackState (soundStarts r st) = playbackState st
   \<and> error (soundStarts r st) = error st"
  by (simp add: soundStarts_def soundCreated_def split: option.splits)

lemma fifo_arrival:
  assumes "fifo arrived st"
  shows "fifo (arrived @ [c]) (handleIncomingAudioChunk r c st)"
proof (cases "awaiting st")
  case None
  with assms show ?thesis
    by (auto simp add: fifo_def handleIncomingAudioChunk_def processAudioQueue_def whileHead_def
        emitted_def Let_def ended_append split: list.splits)
next
  case (Some a)
  with assms show ?thesis
    by (auto simp add: fifo_def handleIncomingAudioChunk_def processAudioQueue_def
        emitted_def Let_def)
qed

lemma fifo_return:
  assumes "fifo arrived st"
  shows "fifo arrived (playReturns r out st)"
proof (cases "awaiting st")
  case None
  with assms show ?thesis by (simp add: playReturns_def)
next
  case (Some a)
  with assms show ?thesis
    by (auto simp add: fifo_def playReturns_def whileHead_def emitted_def settles_frame
        ended_append played_snoc split: list.splits)
qed

lemma fifo_sound:
  assumes "fifo arrived st"
  shows "fifo arrived (soundStarts r st)"
  using assms by (simp add: fifo_def soundStarts_frame)

lemma fifo_run:
  assumes "fifo arrived st"
  shows "fifo (arrived @ arrivals evs) (run r evs st)"
proof (induction evs rule: rev_induct)
  case Nil
  from assms show ?case by (simp add: run_def)
next
  case (snoc ev evs)
  show ?case
  proof (cases ev)
    case (ChunkArrives c)
    with snoc fifo_arrival [of "arrived @ arrivals evs" "run r evs st" c r] show ?thesis
      by (simp add: run_snoc arrivals_append)
  next
    case SoundStarts
    with snoc fifo_sound [of "arrived @ arrivals evs" "run r evs st" r] show ?thesis
      by (simp add: run_snoc arrivals_append)
  next
    case (PlayReturns out)
    with snoc fifo_return [of "arrived @ arrivals evs" "run r evs st" r out] show ?thesis
      by (simp add: run_snoc arrivals_append)
  qed
qed

text \<open>
  C4. Start with an empty queue and no drain running, and let chunks arrive, sounds
  start and plays return in any interleaving and with any outcomes. At every moment the trace of play
  steps is an initial part of \<open>begin c1, end c1, begin c2, end c2, ...\<close> for the chunks
  \<open>c1, c2, ...\<close> in their order of arrival: a play step begins only after the one before
  it has returned, and in arrival order. The chunks begun followed by the chunks still
  queued are exactly the chunks that arrived, in arrival order. Nothing here reads the
  \<open>index\<close> field.
\<close>

theorem drain_is_fifo:
  assumes "audioQueueRef st = []" and "awaiting st = None" and "\<not> isProcessingRef st"
    and "playTrace st = []"
  shows "prefix (playTrace (run r evs st)) (played (arrivals evs))
         \<and> begun (playTrace (run r evs st)) @ audioQueueRef (run r evs st) = arrivals evs"
proof -
  have "fifo [] st"
    using assms by (simp add: fifo_def emitted_def)
  then have f: "fifo (arrivals evs) (run r evs st)"
    using fifo_run [of "[]" st evs r] by simp
  let ?st = "run r evs st"
  from f have arr: "arrivals evs = ended (playTrace ?st) @ emitted (awaiting ?st) @ audioQueueRef ?st"
    and tr: "playTrace ?st = played (ended (playTrace ?st)) @ map PlayBegin (emitted (awaiting ?st))"
    by (simp_all add: fifo_def)
  have "played (arrivals evs) =
      played (ended (playTrace ?st)) @ played (emitted (awaiting ?st) @ audioQueueRef ?st)"
    by (subst arr) (simp add: played_append)
  moreover have "prefix (map PlayBegin (emitted (awaiting ?st)))
      (played (emitted (awaiting ?st) @ audioQueueRef ?st))"
    by (cases "awaiting ?st") (simp_all add: emitted_def)
  ultimately have p: "prefix (playTrace ?st) (played (arrivals evs))"
    by (subst tr) simp
  have "begun (playTrace ?st) = ended (playTrace ?st) @ emitted (awaiting ?st)"
    by (subst tr) (cases "awaiting ?st", simp_all add: begun_append begun_played emitted_def)
  with arr p show ?thesis by simp
qed

theorem drain_is_fifo_witness:
  "map index (begun (playTrace (run firstRender
       [ChunkArrives (sampleChunk 3), ChunkArrives (sampleChunk 1), ChunkArrives (sampleChunk 2),
        ChunkArrives (sampleChunk 9), ChunkArrives (sampleChunk 4), PlayReturns Played,
        ChunkArrives (sampleChunk 0), PlayReturns Played] useAudioPlayback))) = [3, 1, 2]
   \<and> map index (audioQueueRef (run firstRender
       [ChunkArrives (sampleChunk 3), ChunkArrives (sampleChunk 1), ChunkArrives (sampleChunk 2),
        ChunkArrives (sampleChunk 9), ChunkArrives (sampleChunk 4), PlayReturns Played,
        ChunkArrives (sampleChunk 0), PlayReturns Played] useAudioPlayback)) = [9, 4, 0]
   \<and> playTrace (run firstRender
       [ChunkArrives (sampleChunk 3), ChunkArrives (sampleChunk 1), ChunkArrives (sampleChunk 2),
        ChunkArrives (sampleChunk 9), ChunkArrives (sampleChunk 4), PlayReturns Played,
        ChunkArrives (sampleChunk 0), PlayReturns Played] useAudioPlayback) =
       [PlayBegin (sampleChunk 3), PlayEnd (sampleChunk 3), PlayBegin (sampleChunk 1),
        PlayEnd (sampleChunk 1), PlayBegin (sampleChunk 2)]"
  using drain_is_fifo [of useAudioPlayback firstRender
       "[ChunkArrives (sampleChunk 3), ChunkArrives (sampleChunk 1), ChunkArrives (sampleChunk 2),
        ChunkArrives (sampleChunk 9), ChunkArrives (sampleChunk 4), PlayReturns Played,
        ChunkArrives (sampleChunk 0), PlayReturns Played]"]
  by (simp add: useAudioPlayback_def run_def handleIncomingAudioChunk_def processAudioQueue_def
      whileHead_def playReturns_def settles_def bufferSize_def firstRender_def sampleChunk_def
      Let_def)

section \<open>The drain loop: buffering threshold\<close>

lemma below_threshold:
  assumes "audioQueueRef st = []" and "awaiting st = None" and "\<not> isProcessingRef st"
    and "\<not> seenIsPlaying r"
  shows "length (arrivals evs) < bufferSize \<Longrightarrow>
         run r evs st = st\<lparr> audioQueueRef := arrivals evs,
                            bufferedChunks := (if arrivals evs = [] then bufferedChunks st
                                               else length (arrivals evs)) \<rparr>"
proof (induction evs rule: rev_induct)
  case Nil
  from assms show ?case by (simp add: run_def)
next
  case (snoc ev evs)
  show ?case
  proof (cases ev)
    case (ChunkArrives c)
    with snoc assms show ?thesis
      by (simp add: run_snoc arrivals_append handleIncomingAudioChunk_def Let_def)
  next
    case SoundStarts
    with snoc assms show ?thesis
      by (simp add: run_snoc arrivals_append soundStarts_def)
  next
    case (PlayReturns out)
    with snoc assms show ?thesis
      by (simp add: run_snoc arrivals_append playReturns_def)
  qed
qed

text \<open>
  The threshold. From an empty queue with no drain running and a handler that sees
  \<^verbatim>\<open>isPlaying\<close> false (as the subscribed handler does), fewer than 5 arrivals leave
  the drain unstarted, with all arrived chunks queued; the fifth arrival starts the
  drain on the first chunk.
\<close>

lemma threshold_of_five:
  assumes "audioQueueRef st = []" and "awaiting st = None" and "\<not> isProcessingRef st"
    and "\<not> seenIsPlaying r"
  shows "(length (arrivals evs) < 5 \<longrightarrow>
            \<not> isProcessingRef (run r evs st)
            \<and> playTrace (run r evs st) = playTrace st
            \<and> playbackState (run r evs st) = playbackState st
            \<and> audioQueueRef (run r evs st) = arrivals evs)
         \<and> (length (arrivals evs) = 4 \<longrightarrow>
            isProcessingRef (run r (evs @ [ChunkArrives c]) st)
            \<and> playbackState (run r (evs @ [ChunkArrives c]) st) = PLAYING
            \<and> playTrace (run r (evs @ [ChunkArrives c]) st) =
                playTrace st @ [PlayBegin (hd (arrivals evs @ [c]))]
            \<and> audioQueueRef (run r (evs @ [ChunkArrives c]) st) = tl (arrivals evs @ [c]))"
proof -
  have quiet: "run r evs st = st\<lparr> audioQueueRef := arrivals evs,
        bufferedChunks := (if arrivals evs = [] then bufferedChunks st else length (arrivals evs)) \<rparr>"
    if "length (arrivals evs) < 5"
    using below_threshold [OF assms, of evs] that by (simp add: bufferSize_def)
  have fifth: "isProcessingRef (run r (evs @ [ChunkArrives c]) st)
         \<and> playbackState (run r (evs @ [ChunkArrives c]) st) = PLAYING
         \<and> playTrace (run r (evs @ [ChunkArrives c]) st) =
             playTrace st @ [PlayBegin (hd (arrivals evs @ [c]))]
         \<and> audioQueueRef (run r (evs @ [ChunkArrives c]) st) = tl (arrivals evs @ [c])"
    if four: "length (arrivals evs) = 4"
  proof -
    from four obtain a rest where ar: "arrivals evs = a # rest"
      by (cases "arrivals evs") auto
    from quiet four have "run r evs st = st\<lparr> audioQueueRef := arrivals evs,
        bufferedChunks := length (arrivals evs) \<rparr>"
      by auto
    with assms four ar show ?thesis
      by (simp add: run_snoc handleIncomingAudioChunk_def processAudioQueue_def whileHead_def
          bufferSize_def Let_def)
  qed
  from quiet fifth assms show ?thesis
    by (simp (no_asm_simp))
qed

text \<open>
  What the guard does for a handler that sees \<^verbatim>\<open>isPlaying\<close> true: the chunk is appended
  and the drain is running afterwards, at any queue length.
\<close>

lemma seen_playing_starts_drain:
  assumes "seenIsPlaying r"
  shows "isProcessingRef (handleIncomingAudioChunk r c st)
         \<and> (isProcessingRef st \<longrightarrow>
              audioQueueRef (handleIncomingAudioChunk r c st) = audioQueueRef st @ [c]
              \<and> playTrace (handleIncomingAudioChunk r c st) = playTrace st)
         \<and> (\<not> isProcessingRef st \<longrightarrow>
              playTrace (handleIncomingAudioChunk r c st) =
                playTrace st @ [PlayBegin (hd (audioQueueRef st @ [c]))]
              \<and> audioQueueRef (handleIncomingAudioChunk r c st) = tl (audioQueueRef st @ [c]))"
  using assms
  by (cases "audioQueueRef st")
    (simp_all add: handleIncomingAudioChunk_def processAudioQueue_def whileHead_def Let_def)




section \<open>The drain loop: a chunk that fails to play\<close>

lemma playReturns_next:
  assumes "awaiting st = Some c" and "audioQueueRef st = c' # rest"
  shows "playReturns r out st =
           (settles r out c st)
             \<lparr> awaiting := Some c', sounding := False,
               playTrace := playTrace st @ [PlayEnd c, PlayBegin c'],
               audioQueueRef := rest, bufferedChunks := length rest \<rparr>"
  using assms by (simp add: playReturns_def whileHead_def settles_frame)

lemma playReturns_last:
  assumes "awaiting st = Some c" and "audioQueueRef st = []"
  shows "playReturns r out st =
           (settles r out c st)
             \<lparr> awaiting := None, sounding := False, playTrace := playTrace st @ [PlayEnd c],
               isProcessingRef := False, playbackState := IDLE, isPlaying := False \<rparr>"
  using assms by (simp add: playReturns_def whileHead_def settles_frame)

lemma drain_to_end:
  "awaiting st = Some c \<Longrightarrow> length outs = Suc (length (audioQueueRef st)) \<Longrightarrow>
   audioQueueRef (run r (map PlayReturns outs) st) = []
   \<and> awaiting (run r (map PlayReturns outs) st) = None
   \<and> \<not> isProcessingRef (run r (map PlayReturns outs) st)
   \<and> playbackState (run r (map PlayReturns outs) st) = IDLE
   \<and> playTrace (run r (map PlayReturns outs) st) =
       playTrace st @ PlayEnd c # played (audioQueueRef st)"
proof (induction outs arbitrary: st c)
  case Nil
  then show ?case by simp
next
  case (Cons out outs)
  show ?case
  proof (cases "audioQueueRef st")
    case Nil
    with Cons.prems show ?thesis
      by (simp add: run_def playReturns_last settles_frame)
  next
    case (Cons c' rest)
    let ?st1 = "playReturns r out st"
    from Cons Cons.prems have st1: "awaiting ?st1 = Some c'" "audioQueueRef ?st1 = rest"
      "playTrace ?st1 = playTrace st @ [PlayEnd c, PlayBegin c']"
      by (simp_all add: playReturns_next)
    from Cons Cons.prems have "length outs = Suc (length (audioQueueRef ?st1))"
      by (simp add: st1)
    from Cons.IH [OF st1(1) this] st1 Cons show ?thesis
      by (simp add: run_def)
  qed
qed

text \<open>
  C5. Let the drain be suspended in the play of chunk \<open>c\<close>, before or after its sound
  has started, and let that play fail at any of its awaited requests with error \<open>e\<close>. The error is stored in the \<^verbatim>\<open>error\<close> cell and
  the call returns normally. With a next chunk \<open>c'\<close> queued, the loop shifts it out and
  begins its play, the processing flag unchanged. And whatever the outcomes of the
  following plays, every chunk that was queued is played, in order, before the loop
  ends in the idle state.
\<close>

theorem play_failure_does_not_stop_drain:
  assumes "awaiting st = Some c" and "failure out = Some e"
  shows "error (playReturns r out st) = Some e
         \<and> (audioQueueRef st = c' # rest \<longrightarrow>
               awaiting (playReturns r out st) = Some c'
               \<and> audioQueueRef (playReturns r out st) = rest
               \<and> isProcessingRef (playReturns r out st) = isProcessingRef st
               \<and> playTrace (playReturns r out st) = playTrace st @ [PlayEnd c, PlayBegin c'])
         \<and> (length outs = length (audioQueueRef st) \<longrightarrow>
               playTrace (run r (map PlayReturns (out # outs)) st) =
                 playTrace st @ PlayEnd c # played (audioQueueRef st)
               \<and> audioQueueRef (run r (map PlayReturns (out # outs)) st) = []
               \<and> \<not> isProcessingRef (run r (map PlayReturns (out # outs)) st)
               \<and> playbackState (run r (map PlayReturns (out # outs)) st) = IDLE)"
proof -
  have err: "error (playReturns r out st) = Some e"
  proof (cases "audioQueueRef st")
    case Nil
    with assms show ?thesis
      by (simp add: playReturns_last settles_error)
  next
    case (Cons c' rest)
    with assms show ?thesis
      by (simp add: playReturns_next settles_error)
  qed
  have nxt: "awaiting (playReturns r out st) = Some c'
               \<and> audioQueueRef (playReturns r out st) = rest
               \<and> isProcessingRef (playReturns r out st) = isProcessingRef st
               \<and> playTrace (playReturns r out st) = playTrace st @ [PlayEnd c, PlayBegin c']"
    if "audioQueueRef st = c' # rest"
    using assms that by (simp add: playReturns_next settles_frame)
  have all: "playTrace (run r (map PlayReturns (out # outs)) st) =
                 playTrace st @ PlayEnd c # played (audioQueueRef st)
               \<and> audioQueueRef (run r (map PlayReturns (out # outs)) st) = []
               \<and> \<not> isProcessingRef (run r (map PlayReturns (out # outs)) st)
               \<and> playbackState (run r (map PlayReturns (out # outs)) st) = IDLE"
    if "length outs = length (audioQueueRef st)"
    using drain_to_end [of st c "out # outs" r] assms(1) that by simp
  from err nxt all show ?thesis by blast
qed

theorem play_failure_does_not_stop_drain_witness:
  "error (playReturns firstRender (CreateRejects ''decode failed'')
      (stalledPlayback \<lparr> awaiting := Some (sampleChunk 6) \<rparr>)) = Some ''decode failed''
   \<and> awaiting (playReturns firstRender (CreateRejects ''decode failed'')
      (stalledPlayback \<lparr> awaiting := Some (sampleChunk 6) \<rparr>)) = Some (sampleChunk 7)
   \<and> playTrace (run firstRender (map PlayReturns [CreateRejects ''decode failed'', Played])
      (stalledPlayback \<lparr> awaiting := Some (sampleChunk 6) \<rparr>)) =
       [PlayEnd (sampleChunk 6), PlayBegin (sampleChunk 7), PlayEnd (sampleChunk 7)]
   \<and> playbackState (run firstRender (map PlayReturns [CreateRejects ''decode failed'', Played])
      (stalledPlayback \<lparr> awaiting := Some (sampleChunk 6) \<rparr>)) = IDLE"
  using play_failure_does_not_stop_drain [of "stalledPlayback \<lparr> awaiting := Some (sampleChunk 6) \<rparr>"
      "sampleChunk 6" "CreateRejects ''decode failed''" "''decode failed''" firstRender
      "sampleChunk 7" "[]" "[Played]"]
  by (simp add: stalledPlayback_def useAudioPlayback_def)

end
